theory Spec2Isabelle
  imports Main "HOL-Library.Sublist"
begin

section \<open>text2wkt: ODK geotraces to Well-Known Text\<close>

text \<open>
  A shallow embedding of \<^verbatim>\<open>src/text2wkt.py\<close>: the method
  \<^verbatim>\<open>WKT_linestring_from_nodes\<close> (the geometry builder) and the method
  \<^verbatim>\<open>main\<close> (column resolution and the loop over the rows), with the Python
  built-ins they call.

  Modelling decisions.
  \<^item> A Python \<^verbatim>\<open>str\<close> is a list of code points, each a natural number, so that
    \<^verbatim>\<open>len\<close>, \<^verbatim>\<open>split\<close> and \<^verbatim>\<open>strip\<close> count what Python counts.
    \<open>lit\<close> turns an ASCII literal into such a list.
  \<^item> Python's \<^verbatim>\<open>None\<close> is \<open>None\<close> of an option type.
  \<^item> Every exception the two methods can raise is a value of \<open>error\<close>, returned as
    \<open>Inl\<close>.
  \<^item> The CSV files are modelled at the level of records: the reader is the list of
    the records \<^verbatim>\<open>csv.reader\<close> yields (each a list of strings), and the output is
    the list of the records handed to \<^verbatim>\<open>writer.writerow\<close>, in order. Opening
    the files, the delimiter, quoting and the final \<^verbatim>\<open>feedback.pushInfo\<close> are
    outside the model.
\<close>

subsection \<open>Python strings and lists\<close>

type_synonym str = "nat list"

definition lit :: "string \<Rightarrow> str" where
  "lit s = map of_char s"

datatype error =
    StopIteration                \<comment> \<open>\<^verbatim>\<open>next(reader)\<close> on an exhausted reader\<close>
  | ValueError_invalid_literal   \<comment> \<open>\<^verbatim>\<open>int(s)\<close>: invalid literal for int() with base 10\<close>
  | ValueError_not_in_list       \<comment> \<open>\<^verbatim>\<open>list.index(x)\<close>: x is not in list\<close>
  | IndexError                   \<comment> \<open>list index out of range\<close>

text \<open>
  \<^verbatim>\<open>str.isspace\<close> for one code point: the characters \<^verbatim>\<open>str.strip()\<close> and
  \<^verbatim>\<open>str.split()\<close> treat as whitespace (CPython's \<^verbatim>\<open>_PyUnicode_IsWhitespace\<close>).
\<close>

definition isspace :: "nat \<Rightarrow> bool" where
  "isspace c \<longleftrightarrow>
     (9 \<le> c \<and> c \<le> 13) \<or> (28 \<le> c \<and> c \<le> 32) \<or> c = 133 \<or> c = 160 \<or> c = 5760 \<or>
     (8192 \<le> c \<and> c \<le> 8202) \<or> c = 8232 \<or> c = 8233 \<or> c = 8239 \<or> c = 8287 \<or> c = 12288"

text \<open>\<^verbatim>\<open>s.strip()\<close>: leading and trailing whitespace removed.\<close>

definition strip :: "str \<Rightarrow> str" where
  "strip s = rev (dropWhile isspace (rev (dropWhile isspace s)))"

text \<open>
  \<^verbatim>\<open>s.split()\<close> with no argument: the maximal runs of non-whitespace characters, in
  order; no empty string is produced. \<open>cur\<close> is the word being read.
\<close>

fun split_from :: "str \<Rightarrow> str \<Rightarrow> str list" where
  "split_from cur [] = (if cur = [] then [] else [cur])"
| "split_from cur (c # cs) =
     (if isspace c then (if cur = [] then split_from [] cs else cur # split_from [] cs)
      else split_from (cur @ [c]) cs)"

definition split_whitespace :: "str \<Rightarrow> str list" where
  "split_whitespace s = split_from [] s"

text \<open>
  \<^verbatim>\<open>s.split(sep)\<close> for a separator of one character: the pieces between the
  occurrences of \<open>sep\<close>, empty pieces included. \<open>split_sep\<close> returns the first piece
  and the list of the others, so the result always has at least one piece.
\<close>

fun split_sep :: "'a \<Rightarrow> 'a list \<Rightarrow> 'a list \<times> 'a list list" where
  "split_sep sep [] = ([], [])"
| "split_sep sep (c # cs) =
     (let (w, ws) = split_sep sep cs
      in if c = sep then ([], w # ws) else (c # w, ws))"

definition str_split :: "'a list \<Rightarrow> 'a \<Rightarrow> 'a list list" where
  "str_split s sep = (let (w, ws) = split_sep sep s in w # ws)"

text \<open>\<^verbatim>\<open>sep.join(xs)\<close>.\<close>

fun str_join :: "'a list \<Rightarrow> 'a list list \<Rightarrow> 'a list" where
  "str_join sep [] = []"
| "str_join sep [x] = x"
| "str_join sep (x # y # ys) = x @ sep @ str_join sep (y # ys)"

text \<open>
  \<^verbatim>\<open>xs[i]\<close> and \<^verbatim>\<open>xs[i] = v\<close>. Python first turns the index into a
  position: a negative index counts from the end, and an index outside
  \<^verbatim>\<open>-len(xs) .. len(xs) - 1\<close> raises \<^verbatim>\<open>IndexError\<close>.
\<close>

definition position :: "nat \<Rightarrow> int \<Rightarrow> nat option" where
  "position len i =
     (if i < 0 then (if - i \<le> int len then Some (nat (int len + i)) else None)
      else (if i < int len then Some (nat i) else None))"

definition py_getitem :: "'a list \<Rightarrow> int \<Rightarrow> error + 'a" where
  "py_getitem xs i =
     (case position (length xs) i of None \<Rightarrow> Inl IndexError | Some k \<Rightarrow> Inr (xs ! k))"

definition py_setitem :: "'a list \<Rightarrow> int \<Rightarrow> 'a \<Rightarrow> error + 'a list" where
  "py_setitem xs i v =
     (case position (length xs) i of None \<Rightarrow> Inl IndexError | Some k \<Rightarrow> Inr (xs[k := v]))"

text \<open>\<^verbatim>\<open>xs.index(x)\<close>: the position of the first element equal to \<open>x\<close>.\<close>

fun py_index :: "'a list \<Rightarrow> 'a \<Rightarrow> error + int" where
  "py_index [] x = Inl ValueError_not_in_list"
| "py_index (y # ys) x =
     (if y = x then Inr 0
      else case py_index ys x of Inl e \<Rightarrow> Inl e | Inr i \<Rightarrow> Inr (i + 1))"

text \<open>
  \<^verbatim>\<open>int(s)\<close> for a string: surrounding whitespace is stripped, then an optional sign
  and decimal digits, where single underscores may stand between digits. The digits
  modelled are the ASCII ones, and the limit some Python versions put on the number of
  digits is not modelled.
\<close>

definition isdigit :: "nat \<Rightarrow> bool" where
  "isdigit c \<longleftrightarrow> 48 \<le> c \<and> c \<le> 57"

fun int_digits :: "int \<Rightarrow> str \<Rightarrow> int option" where
  "int_digits acc [] = Some acc"
| "int_digits acc [c] = (if isdigit c then Some (10 * acc + int (c - 48)) else None)"
| "int_digits acc (c # d # ds) =
     (if isdigit c then int_digits (10 * acc + int (c - 48)) (d # ds)
      else if c = 95 \<and> isdigit d then int_digits (10 * acc + int (d - 48)) ds
      else None)"

definition int_unsigned :: "str \<Rightarrow> int option" where
  "int_unsigned s =
     (case s of
        [] \<Rightarrow> None
      | d # ds \<Rightarrow> if isdigit d then int_digits (int (d - 48)) ds else None)"

definition py_int :: "str \<Rightarrow> error + int" where
  "py_int s =
     (case strip s of
        [] \<Rightarrow> Inl ValueError_invalid_literal
      | c # cs \<Rightarrow>
          (case (if c = 45 then map_option uminus (int_unsigned cs)
                 else if c = 43 then int_unsigned cs
                 else int_unsigned (c # cs)) of
             None \<Rightarrow> Inl ValueError_invalid_literal
           | Some v \<Rightarrow> Inr v))"

subsection \<open>The geometry builder\<close>

text \<open>
  The loop \<^verbatim>\<open>for node in nodes\<close> of \<^verbatim>\<open>WKT_linestring_from_nodes\<close>, with
  \<open>coord_pair_list\<close> as its accumulator. \<^verbatim>\<open>'{} {}'.format(coords[1], coords[0])\<close> is
  the two tokens around one space.
\<close>

fun for_node :: "str list \<Rightarrow> str list \<Rightarrow> error + str list" where
  "for_node [] coord_pair_list = Inr coord_pair_list"
| "for_node (node # nodes) coord_pair_list =
     (let coords = split_whitespace (strip node)
      in if length coords \<ge> 2 then
           (case py_getitem coords 1 of
              Inl e \<Rightarrow> Inl e
            | Inr c1 \<Rightarrow>
                (case py_getitem coords 0 of
                   Inl e \<Rightarrow> Inl e
                 | Inr c0 \<Rightarrow> for_node nodes (coord_pair_list @ [c1 @ lit '' '' @ c0])))
         else for_node nodes coord_pair_list)"

definition WKT_linestring_from_nodes :: "str \<Rightarrow> error + str option" where
  "WKT_linestring_from_nodes node_string =
     (let nodes = str_split node_string 59
      in if nodes \<noteq> [] then
           (let WKT_type = (if length nodes > 1 then lit ''LINESTRING'' else lit ''POINT'')
            in case for_node nodes [] of
                 Inl e \<Rightarrow> Inl e
               | Inr coord_pair_list \<Rightarrow>
                   (let line_coord_string = str_join (lit '', '') coord_pair_list;
                        linestring = WKT_type @ lit ''('' @ line_coord_string @ lit '')''
                    in Inr (Some linestring)))
         else Inr None)"

subsection \<open>The column resolver and the loop over the rows\<close>

text \<open>
  Line 192: \<^verbatim>\<open>int(column) - 1 if column else header.index(column_name)\<close>.
  \<open>column\<close> is \<^verbatim>\<open>None\<close> or a string (the only caller, \<^verbatim>\<open>processAlgorithm\<close>,
  passes \<^verbatim>\<open>None\<close>); \<^verbatim>\<open>None\<close> and the empty string are false.
\<close>

definition colindex :: "str option \<Rightarrow> str \<Rightarrow> str list \<Rightarrow> error + int" where
  "colindex column column_name header =
     (if column \<noteq> None \<and> column \<noteq> Some [] then
        (case py_int (the column) of Inl e \<Rightarrow> Inl e | Inr n \<Rightarrow> Inr (n - 1))
      else py_index header column_name)"

text \<open>
  What a run of \<open>main\<close> leaves behind: the records written so far, and the exception
  that ended it, if any. A written field is a string or \<^verbatim>\<open>None\<close>.
\<close>

record run =
  written :: "str option list list"
  raised :: "error option"

text \<open>
  The loop \<^verbatim>\<open>for row in reader\<close>. \<^verbatim>\<open>''.join(row[colindex])\<close> joins the
  characters of the field; \<open>outrow\<close> is the row itself, with the field replaced;
  \<open>ci\<close> is the value of \<^verbatim>\<open>colindex\<close>.
\<close>

fun for_row :: "int \<Rightarrow> str list list \<Rightarrow> str option list list \<Rightarrow> run" where
  "for_row ci [] out = \<lparr>written = out, raised = None\<rparr>"
| "for_row ci (row # reader) out =
     (case py_getitem row ci of
        Inl e \<Rightarrow> \<lparr>written = out, raised = Some e\<rparr>
      | Inr field \<Rightarrow>
          (let node_string = str_join [] (map (\<lambda>c. [c]) field)
           in case WKT_linestring_from_nodes node_string of
                Inl e \<Rightarrow> \<lparr>written = out, raised = Some e\<rparr>
              | Inr wkt \<Rightarrow>
                  (case py_setitem (map Some row) ci wkt of
                     Inl e \<Rightarrow> \<lparr>written = out, raised = Some e\<rparr>
                   | Inr outrow \<Rightarrow> for_row ci reader (out @ [outrow]))))"

definition main :: "str list list \<Rightarrow> str option \<Rightarrow> str \<Rightarrow> run" where
  "main reader column column_name =
     (case reader of
        [] \<Rightarrow> \<lparr>written = [], raised = Some StopIteration\<rparr>
      | header # rows \<Rightarrow>
          (case colindex column column_name header of
             Inl e \<Rightarrow> \<lparr>written = [], raised = Some e\<rparr>
           | Inr ci \<Rightarrow> for_row ci rows [map Some header]))"

text \<open>
  \<^verbatim>\<open>processAlgorithm\<close> calls \<open>main\<close> with \<^verbatim>\<open>None\<close> for \<open>column\<close> and the
  selected field's name for \<open>column_name\<close>.
\<close>

definition processAlgorithm :: "str list list \<Rightarrow> str \<Rightarrow> run" where
  "processAlgorithm reader column = main reader None column"

subsection \<open>Notions of the specification\<close>

text \<open>
  The tokens of a segment, the segments that are kept (two tokens or more), and the
  coordinate pair of a kept segment.
\<close>

definition tokens :: "str \<Rightarrow> str list" where
  "tokens node = split_whitespace (strip node)"

definition well_formed :: "str \<Rightarrow> bool" where
  "well_formed node \<longleftrightarrow> length (tokens node) \<ge> 2"

definition segments :: "str \<Rightarrow> str list" where
  "segments node_string = str_split node_string 59"

definition kept :: "str \<Rightarrow> str list" where
  "kept node_string = filter well_formed (segments node_string)"

definition pair_of :: "str \<Rightarrow> str" where
  "pair_of node = (tokens node ! 1) @ lit '' '' @ (tokens node ! 0)"

text \<open>
  The record written for a data row: the row with the field at the coordinate column
  replaced by what the geometry builder returns for it. A row too short for the column
  has no such record.
\<close>

definition transformed :: "int \<Rightarrow> str list \<Rightarrow> str option list" where
  "transformed ci row =
     (case position (length row) ci of
        None \<Rightarrow> map Some row
      | Some k \<Rightarrow>
          (map Some row)[k := (case WKT_linestring_from_nodes (row ! k) of
                                 Inl e \<Rightarrow> None
                               | Inr wkt \<Rightarrow> wkt)])"

subsection \<open>Splitting and joining\<close>

text \<open>
  Facts about the built-ins: \<^verbatim>\<open>split(';')\<close> never returns the empty list and
  is undone by joining with the separator; segments and tokens are pieces of the text
  they come from.
\<close>

lemma split_sep_length: "length (snd (split_sep sep s)) = count_list s sep"
  by (induction s) (auto split: prod.splits)

lemma str_split_length: "length (str_split s sep) = Suc (count_list s sep)"
  using split_sep_length [of sep s] by (cases "split_sep sep s") (simp add: str_split_def)

lemma str_split_nonempty: "str_split s sep \<noteq> []"
  by (simp add: str_split_def split: prod.splits)

lemma str_split_many: "length (str_split s sep) > 1 \<longleftrightarrow> sep \<in> set s"
proof -
  have "count_list s sep \<noteq> 0 \<longleftrightarrow> sep \<in> set s" by (simp add: count_list_0_iff)
  then show ?thesis by (simp add: str_split_length)
qed

lemma split_sep_absent: "sep \<notin> set s \<Longrightarrow> split_sep sep s = (s, [])"
  by (induction s) auto

lemma str_split_single: "sep \<notin> set s \<Longrightarrow> str_split s sep = [s]"
  by (simp add: str_split_def split_sep_absent)

lemma str_join_Cons_Cons: "str_join sep ((c # w) # ws) = c # str_join sep (w # ws)"
  by (cases ws) simp_all

lemma split_sep_join: "split_sep sep s = (w, ws) \<Longrightarrow> str_join [sep] (w # ws) = s"
proof (induction s arbitrary: w ws)
  case Nil
  then show ?case by simp
next
  case (Cons c cs)
  obtain w' ws' where r: "split_sep sep cs = (w', ws')" by (cases "split_sep sep cs")
  from Cons.IH [OF r] have ih: "str_join [sep] (w' # ws') = cs" .
  show ?case
  proof (cases "c = sep")
    case True
    with Cons.prems r have "w = []" "ws = w' # ws'" by simp_all
    with ih True show ?thesis by simp
  next
    case False
    with Cons.prems r have "w = c # w'" "ws = ws'" by simp_all
    with ih show ?thesis by (simp add: str_join_Cons_Cons)
  qed
qed

lemma str_join_split: "str_join [sep] (str_split s sep) = s"
  by (cases "split_sep sep s") (simp add: str_split_def split_sep_join)

lemma split_sep_sublist:
  "split_sep sep s = (w, ws) \<Longrightarrow> node \<in> set (w # ws) \<Longrightarrow> sublist node s"
proof (induction s arbitrary: w ws)
  case Nil
  then show ?case by simp
next
  case (Cons c cs)
  obtain w' ws' where r: "split_sep sep cs = (w', ws')" by (cases "split_sep sep cs")
  have ih: "node \<in> set (w' # ws') \<Longrightarrow> sublist node (c # cs)"
    using Cons.IH [OF r] by (simp add: sublist_Cons_right)
  show ?case
  proof (cases "c = sep")
    case True
    with Cons.prems r have "node = [] \<or> node \<in> set (w' # ws')" by auto
    then show ?thesis using ih by auto
  next
    case False
    with Cons.prems r have "node = c # w' \<or> node \<in> set ws'" by auto
    then show ?thesis
    proof
      assume n: "node = c # w'"
      have "prefix w' cs" using split_sep_join [OF r]
        by (cases ws') (auto simp: prefix_def)
      then show ?thesis using n by (simp add: prefix_imp_sublist)
    next
      assume "node \<in> set ws'"
      then show ?thesis using ih by simp
    qed
  qed
qed

lemma str_split_sublist: "node \<in> set (str_split s sep) \<Longrightarrow> sublist node s"
  by (cases "split_sep sep s") (auto simp: str_split_def dest: split_sep_sublist)

lemma split_from_sublist:
  "t \<in> set (split_from cur s) \<Longrightarrow> sublist t (cur @ s)"
proof (induction s arbitrary: cur)
  case Nil
  then show ?case by (simp split: if_splits)
next
  case (Cons c cs)
  show ?case
  proof (cases "isspace c")
    case False
    with Cons.prems have "t \<in> set (split_from (cur @ [c]) cs)" by simp
    from Cons.IH [OF this] show ?thesis by simp
  next
    case True
    with Cons.prems have "(cur \<noteq> [] \<and> t = cur) \<or> t \<in> set (split_from [] cs)"
      by (auto split: if_splits)
    then show ?thesis
    proof
      assume "cur \<noteq> [] \<and> t = cur"
      then show ?thesis by (simp add: sublist_append_rightI)
    next
      assume "t \<in> set (split_from [] cs)"
      from Cons.IH [OF this] have "sublist t cs" by simp
      then have "sublist t (c # cs)" by (simp add: sublist_Cons_right)
      moreover have "sublist (c # cs) (cur @ c # cs)" by simp
      ultimately show ?thesis by (rule sublist_order.order_trans)
    qed
  qed
qed

lemma strip_sublist: "sublist (strip s) s"
proof -
  let ?d = "dropWhile isspace s"
  have "sublist (dropWhile isspace (rev ?d)) (rev ?d)" by simp
  then have "sublist (strip s) ?d" by (simp add: strip_def sublist_rev_left)
  moreover have "sublist ?d s" by simp
  ultimately show ?thesis by (rule sublist_order.order_trans)
qed

lemma tokens_sublist: "t \<in> set (tokens node) \<Longrightarrow> sublist t node"
proof -
  assume "t \<in> set (tokens node)"
  then have "sublist t (strip node)"
    using split_from_sublist [of t "[]" "strip node"] by (simp add: tokens_def split_whitespace_def)
  then show ?thesis using strip_sublist sublist_order.order_trans by blast
qed

lemma split_from_nonspace:
  "t \<in> set (split_from cur s) \<Longrightarrow> \<forall>c \<in> set cur. \<not> isspace c \<Longrightarrow>
     t \<noteq> [] \<and> (\<forall>c \<in> set t. \<not> isspace c)"
proof (induction s arbitrary: cur)
  case Nil
  then show ?case by (auto split: if_splits)
next
  case (Cons c cs)
  show ?case
  proof (cases "isspace c")
    case False
    with Cons.prems have "t \<in> set (split_from (cur @ [c]) cs)" "\<forall>x \<in> set (cur @ [c]). \<not> isspace x"
      by simp_all
    then show ?thesis by (rule Cons.IH)
  next
    case True
    with Cons.prems(1) have "(cur \<noteq> [] \<and> t = cur) \<or> t \<in> set (split_from [] cs)"
      by (auto split: if_splits)
    then show ?thesis using Cons.prems(2) Cons.IH [of "[]"] by auto
  qed
qed

lemma tokens_nonspace: "t \<in> set (tokens node) \<Longrightarrow> t \<noteq> [] \<and> (\<forall>c \<in> set t. \<not> isspace c)"
  using split_from_nonspace [of t "[]" "strip node"] by (simp add: tokens_def split_whitespace_def)

lemma py_getitem_nat: "i < length xs \<Longrightarrow> py_getitem xs (int i) = Inr (xs ! i)"
  by (simp add: py_getitem_def position_def)

lemma for_node_eq: "for_node nodes acc = Inr (acc @ map pair_of (filter well_formed nodes))"
proof (induction nodes arbitrary: acc)
  case Nil
  show ?case by simp
next
  case (Cons node nodes)
  show ?case
  proof (cases "well_formed node")
    case True
    then have l: "2 \<le> length (split_whitespace (strip node))"
      by (simp add: well_formed_def tokens_def)
    then have "py_getitem (split_whitespace (strip node)) 1 = Inr (split_whitespace (strip node) ! 1)"
      "py_getitem (split_whitespace (strip node)) 0 = Inr (split_whitespace (strip node) ! 0)"
      by (auto simp: py_getitem_def position_def)
    with l True show ?thesis
      by (simp add: Cons.IH pair_of_def tokens_def Let_def del: One_nat_def)
  next
    case False
    then have "\<not> 2 \<le> length (split_whitespace (strip node))"
      by (simp add: well_formed_def tokens_def)
    with False show ?thesis by (simp add: Cons.IH)
  qed
qed

lemma WKT_eq:
  "WKT_linestring_from_nodes s =
     Inr (Some ((if 59 \<in> set s then lit ''LINESTRING'' else lit ''POINT'') @ lit ''('' @
                str_join (lit '', '') (map pair_of (kept s)) @ lit '')''))"
proof -
  have "length (str_split s 59) > 1 \<longleftrightarrow> 59 \<in> set s" by (rule str_split_many)
  then show ?thesis
    unfolding WKT_linestring_from_nodes_def Let_def kept_def segments_def
    by (simp only: str_split_nonempty for_node_eq) simp
qed

lemma str_join_last:
  "xs \<noteq> [] \<Longrightarrow> last xs \<noteq> [] \<Longrightarrow>
     str_join sep xs \<noteq> [] \<and> last (str_join sep xs) = last (last xs)"
  by (induction sep xs rule: str_join.induct) auto

lemma pair_of_last: "well_formed n \<Longrightarrow> pair_of n \<noteq> [] \<and> \<not> isspace (last (pair_of n))"
proof -
  assume "well_formed n"
  then have "0 < length (tokens n)" by (cases "tokens n") (simp_all add: well_formed_def)
  then have "tokens n ! 0 \<in> set (tokens n)" by (rule nth_mem)
  then have "tokens n ! 0 \<noteq> [] \<and> (\<forall>c \<in> set (tokens n ! 0). \<not> isspace c)"
    by (rule tokens_nonspace)
  then show ?thesis by (simp add: pair_of_def)
qed

lemma pairs_no_trailing_separator:
  assumes "kept s \<noteq> []"
  shows "\<not> suffix (lit '', '') (str_join (lit '', '') (map pair_of (kept s)))"
proof -
  let ?ps = "map pair_of (kept s)"
  have wf: "well_formed (last (kept s))"
    using assms last_in_set [of "kept s"] by (simp add: kept_def)
  have l: "last ?ps = pair_of (last (kept s))" using assms by (simp add: last_map)
  with wf have "last ?ps \<noteq> []" "\<not> isspace (last (last ?ps))"
    using pair_of_last by simp_all
  with assms have j: "str_join (lit '', '') ?ps \<noteq> []"
    "\<not> isspace (last (str_join (lit '', '') ?ps))"
    using str_join_last [of ?ps "lit '', ''"] by simp_all
  have "isspace 32" by (simp add: isspace_def)
  show ?thesis
  proof
    assume "suffix (lit '', '') (str_join (lit '', '') ?ps)"
    then obtain p where "str_join (lit '', '') ?ps = p @ lit '', ''" by (auto simp: suffix_def)
    then have "last (str_join (lit '', '') ?ps) = 32" by (simp add: lit_def)
    with j(2) \<open>isspace 32\<close> show False by simp
  qed
qed

text \<open>The definitions a concrete input is evaluated with.\<close>

lemmas py_eval =
  WKT_linestring_from_nodes_def lit_def str_split_def split_whitespace_def strip_def
  isspace_def py_getitem_def position_def Let_def

lemmas spec_eval =
  kept_def segments_def well_formed_def tokens_def pair_of_def lit_def str_split_def
  split_whitespace_def strip_def isspace_def

lemma WKT_by_segments:
  "WKT_linestring_from_nodes s =
     Inr (Some ((if length (segments s) > 1 then lit ''LINESTRING'' else lit ''POINT'') @
                lit ''('' @ str_join (lit '', '') (map pair_of (kept s)) @ lit '')''))"
  using str_split_many [of s 59] by (simp add: WKT_eq segments_def)

lemma pair_of_take: 
  "well_formed n \<Longrightarrow> pair_of n = (take 2 (tokens n) ! 1) @ lit '' '' @ (take 2 (tokens n) ! 0)"
  by (simp add: pair_of_def well_formed_def)

lemma well_formed_tokens:
  assumes "well_formed n"
  shows "tokens n ! 0 \<in> set (tokens n)" and "tokens n ! 1 \<in> set (tokens n)"
proof -
  from assms have "0 < length (tokens n)" and "1 < length (tokens n)"
    unfolding well_formed_def by arith+
  then show "tokens n ! 0 \<in> set (tokens n)" and "tokens n ! 1 \<in> set (tokens n)"
    by (simp_all only: nth_mem)
qed

subsection \<open>The loop over the rows\<close>

text \<open>
  One turn of the loop writes the transformed row when the row is long enough for the
  column, and nothing in the turn can raise then; the first row that is too short
  ends the run with \<^verbatim>\<open>IndexError\<close>.
\<close>

lemma join_chars: "str_join [] (map (\<lambda>c. [c]) field) = field"
  by (induction field rule: induct_list012) simp_all

lemma for_row_step:
  assumes "position (length row) ci \<noteq> None"
  shows "for_row ci (row # reader) out = for_row ci reader (out @ [transformed ci row])"
proof -
  from assms obtain k where k: "position (length row) ci = Some k" by auto
  obtain w where w: "WKT_linestring_from_nodes (row ! k) = Inr w"
    using WKT_by_segments [of "row ! k"] by simp
  from k w show ?thesis
    by (simp add: py_getitem_def py_setitem_def join_chars transformed_def)
qed

lemma for_row_ok:
  "\<forall>row \<in> set rows. position (length row) ci \<noteq> None \<Longrightarrow>
     for_row ci rows out = \<lparr>written = out @ map (transformed ci) rows, raised = None\<rparr>"
proof (induction rows arbitrary: out)
  case Nil
  show ?case by simp
next
  case (Cons row rows)
  from Cons.prems have p: "position (length row) ci \<noteq> None"
    and r: "\<forall>row \<in> set rows. position (length row) ci \<noteq> None" by simp_all
  show ?case by (subst for_row_step [OF p]) (simp add: Cons.IH [OF r])
qed

lemma for_row_IndexError:
  assumes "\<forall>row \<in> set pre. position (length row) ci \<noteq> None"
      and "position (length bad) ci = None"
  shows "for_row ci (pre @ bad # post) out =
           \<lparr>written = out @ map (transformed ci) pre, raised = Some IndexError\<rparr>"
  using assms(1)
proof (induction pre arbitrary: out)
  case Nil
  from assms(2) show ?case by (simp add: py_getitem_def)
next
  case (Cons row pre)
  from Cons.prems have p: "position (length row) ci \<noteq> None"
    and r: "\<forall>row \<in> set pre. position (length row) ci \<noteq> None" by simp_all
  have "for_row ci ((row # pre) @ bad # post) out =
        for_row ci (pre @ bad # post) (out @ [transformed ci row])"
    using for_row_step [OF p] by simp
  then show ?case by (simp add: Cons.IH [OF r])
qed

lemma position_less: "position len ci = Some k \<Longrightarrow> k < len"
  by (auto simp: position_def split: if_splits)

lemma transformed_shape:
  assumes "position (length row) ci = Some k"
  shows "length (transformed ci row) = length row"
    and "WKT_linestring_from_nodes (row ! k) = Inr (transformed ci row ! k)"
    and "j < length row \<Longrightarrow> j \<noteq> k \<Longrightarrow> transformed ci row ! j = Some (row ! j)"
proof -
  from assms have kl: "k < length row" by (rule position_less)
  obtain w where w: "WKT_linestring_from_nodes (row ! k) = Inr w"
    using WKT_by_segments [of "row ! k"] by simp
  from assms show "length (transformed ci row) = length row"
    by (simp add: transformed_def)
  from assms kl w show "WKT_linestring_from_nodes (row ! k) = Inr (transformed ci row ! k)"
    by (simp add: transformed_def)
  show "j < length row \<Longrightarrow> j \<noteq> k \<Longrightarrow> transformed ci row ! j = Some (row ! j)"
    using assms by (simp add: transformed_def)
qed

lemma py_index_absent: "x \<notin> set ys \<Longrightarrow> py_index ys x = Inl ValueError_not_in_list"
  by (induction ys) auto

lemma py_index_first:
  "i < length ys \<Longrightarrow> ys ! i = x \<Longrightarrow> \<forall>j<i. ys ! j \<noteq> x \<Longrightarrow> py_index ys x = Inr (int i)"
proof (induction ys arbitrary: i)
  case Nil
  then show ?case by simp
next
  case (Cons y ys)
  show ?case
  proof (cases i)
    case 0
    with Cons.prems show ?thesis by simp
  next
    case (Suc m)
    with Cons.prems have "y \<noteq> x" by auto
    moreover from Suc Cons.prems have "py_index ys x = Inr (int m)"
      by (intro Cons.IH) auto
    ultimately show ?thesis using Suc by simp
  qed
qed

text \<open>The definitions a concrete run of \<open>main\<close> is evaluated with.\<close>

lemmas main_eval =
  main_def colindex_def py_int_def int_unsigned_def isdigit_def strip_def isspace_def
  py_getitem_def py_setitem_def position_def lit_def

subsection \<open>Claims about the geometry builder\<close>

text \<open>
  Claim C1, as the code has it: the kind of the emitted WKT is determined solely by the
  number of semicolon-separated segments, counted before the malformed ones are
  dropped: \<^verbatim>\<open>POINT\<close> for a single segment, \<^verbatim>\<open>LINESTRING\<close> for two or more. The
  parentheses hold one pair per well-formed segment. So a NodeString that is one
  well-formed segment gives \<^verbatim>\<open>POINT(pair)\<close> with exactly one pair, and two or
  more kept segments give a \<^verbatim>\<open>LINESTRING\<close>.
\<close>

theorem WKT_kind_by_segment_count:
  "WKT_linestring_from_nodes s =
     Inr (Some ((if length (segments s) > 1 then lit ''LINESTRING'' else lit ''POINT'') @
                lit ''('' @ str_join (lit '', '') (map pair_of (kept s)) @ lit '')'')) \<and>
   (length (segments s) = 1 \<and> well_formed s \<longrightarrow>
      WKT_linestring_from_nodes s = Inr (Some (lit ''POINT'' @ lit ''('' @ pair_of s @ lit '')''))) \<and>
   (length (kept s) \<ge> 2 \<longrightarrow>
      WKT_linestring_from_nodes s =
        Inr (Some (lit ''LINESTRING'' @ lit ''('' @
                   str_join (lit '', '') (map pair_of (kept s)) @ lit '')'')))"
proof (intro conjI impI)
  show g: "WKT_linestring_from_nodes s =
     Inr (Some ((if length (segments s) > 1 then lit ''LINESTRING'' else lit ''POINT'') @
                lit ''('' @ str_join (lit '', '') (map pair_of (kept s)) @ lit '')''))"
    using str_split_many [of s 59] by (simp add: WKT_eq segments_def)
  {
    assume a: "length (segments s) = 1 \<and> well_formed s"
    then have "59 \<notin> set s" using str_split_many [of s 59] by (simp add: segments_def)
    then have "segments s = [s]" by (simp add: segments_def str_split_single)
    with a have "kept s = [s]" by (simp add: kept_def)
    with a show "WKT_linestring_from_nodes s =
        Inr (Some (lit ''POINT'' @ lit ''('' @ pair_of s @ lit '')''))"
      by (simp add: g)
  }
  {
    assume a: "length (kept s) \<ge> 2"
    have "length (kept s) \<le> length (segments s)" by (simp add: kept_def)
    with a have "length (segments s) > 1" by simp
    then show "WKT_linestring_from_nodes s =
        Inr (Some (lit ''LINESTRING'' @ lit ''('' @
                   str_join (lit '', '') (map pair_of (kept s)) @ lit '')''))"
      by (simp add: g)
  }
qed

text \<open>
  The theorem at a single well-formed segment and at two well-formed segments.
\<close>

theorem WKT_kind_by_segment_count_witness:
  "length (segments (lit ''7 8'')) = 1 \<and> well_formed (lit ''7 8'') \<and>
   WKT_linestring_from_nodes (lit ''7 8'') = Inr (Some (lit ''POINT(8 7)'')) \<and>
   length (kept (lit ''1 2;3 4'')) \<ge> 2 \<and>
   WKT_linestring_from_nodes (lit ''1 2;3 4'') = Inr (Some (lit ''LINESTRING(2 1, 4 3)''))"
proof -
  have a: "length (segments (lit ''7 8'')) = 1 \<and> well_formed (lit ''7 8'')"
    by (simp add: spec_eval)
  have b: "length (kept (lit ''1 2;3 4'')) \<ge> 2"
    by (simp add: spec_eval)
  have p: "pair_of (lit ''7 8'') = lit ''8 7''"
    by (simp add: spec_eval)
  have q: "map pair_of (kept (lit ''1 2;3 4'')) = [lit ''2 1'', lit ''4 3'']"
    by (simp add: spec_eval)
  from a WKT_kind_by_segment_count [of "lit ''7 8''"]
  have "WKT_linestring_from_nodes (lit ''7 8'') =
      Inr (Some (lit ''POINT'' @ lit ''('' @ pair_of (lit ''7 8'') @ lit '')''))" by blast
  then have c: "WKT_linestring_from_nodes (lit ''7 8'') = Inr (Some (lit ''POINT(8 7)''))"
    by (simp add: p) (simp add: lit_def)
  from b WKT_kind_by_segment_count [of "lit ''1 2;3 4''"]
  have "WKT_linestring_from_nodes (lit ''1 2;3 4'') =
        Inr (Some (lit ''LINESTRING'' @ lit ''('' @
                   str_join (lit '', '') (map pair_of (kept (lit ''1 2;3 4''))) @ lit '')''))"
    by blast
  then have d: "WKT_linestring_from_nodes (lit ''1 2;3 4'') = Inr (Some (lit ''LINESTRING(2 1, 4 3)''))"
    by (simp add: q) (simp add: lit_def)
  from a b c d show ?thesis by blast
qed

text \<open>
  The kind does not follow the number of kept segments: one well-formed segment next
  to a malformed one is emitted as a \<^verbatim>\<open>LINESTRING\<close> with a single pair.
\<close>

theorem WKT_kind_by_valid_count_counterexample:
  "length (kept (lit ''1 2;x'')) = 1 \<and>
   WKT_linestring_from_nodes (lit ''1 2;x'') = Inr (Some (lit ''LINESTRING(2 1)''))"
  by (simp add: py_eval kept_def segments_def well_formed_def tokens_def)

text \<open>
  Claim C2, as the code has it: for every non-empty NodeString in which every
  semicolon-separated segment has fewer than 2 tokens, the result is not
  \<^verbatim>\<open>None\<close> but a string with nothing between the parentheses:
  \<^verbatim>\<open>POINT()\<close> for a single segment, \<^verbatim>\<open>LINESTRING()\<close> for two or more.
\<close>

theorem WKT_all_malformed:
  assumes "s \<noteq> []" and "\<forall>node \<in> set (segments s). length (tokens node) < 2"
  shows "WKT_linestring_from_nodes s =
           Inr (Some ((if length (segments s) > 1 then lit ''LINESTRING'' else lit ''POINT'') @
                      lit ''()''))"
proof -
  from assms(2) have "kept s = []" by (auto simp: kept_def well_formed_def filter_empty_conv)
  then show ?thesis by (simp add: WKT_by_segments lit_def)
qed

text \<open>The theorem at three malformed segments.\<close>

theorem WKT_all_malformed_witness:
  "lit ''a; ;b'' \<noteq> [] \<and> segments (lit ''a; ;b'') = [lit ''a'', lit '' '', lit ''b''] \<and>
   length (tokens (lit ''a'')) < 2 \<and> length (tokens (lit '' '')) < 2 \<and>
   length (tokens (lit ''b'')) < 2 \<and>
   WKT_linestring_from_nodes (lit ''a; ;b'') = Inr (Some (lit ''LINESTRING()''))"
proof -
  have a: "lit ''a; ;b'' \<noteq> []" by (simp add: lit_def)
  have b: "segments (lit ''a; ;b'') = [lit ''a'', lit '' '', lit ''b'']"
    by (simp add: spec_eval)
  have c: "length (tokens (lit ''a'')) < 2" "length (tokens (lit '' '')) < 2"
    "length (tokens (lit ''b'')) < 2"
    by (simp_all add: spec_eval)
  from b c have "\<forall>node \<in> set (segments (lit ''a; ;b'')). length (tokens node) < 2" by simp
  from WKT_all_malformed [OF a this] b
  have "WKT_linestring_from_nodes (lit ''a; ;b'') = Inr (Some (lit ''LINESTRING()''))"
    by (simp add: lit_def)
  with a b c show ?thesis by blast
qed

text \<open>
  Two segments of one token each: nothing is kept, and the result is a string, not
  \<^verbatim>\<open>None\<close>.
\<close>

theorem WKT_all_malformed_counterexample:
  "kept (lit ''12;34'') = [] \<and>
   WKT_linestring_from_nodes (lit ''12;34'') = Inr (Some (lit ''LINESTRING()''))"
  by (simp add: py_eval kept_def segments_def well_formed_def tokens_def)

text \<open>
  Claim C3: every kept node is emitted as its second token, one space, its first token
  (longitude before latitude); both tokens are pieces of the node's own text, and the
  node is a piece of the NodeString, so nothing is reformatted. In particular
  \<^verbatim>\<open>"1.5 2.5"\<close> gives \<^verbatim>\<open>"POINT(2.5 1.5)"\<close>.
\<close>

theorem WKT_axis_order:
  "WKT_linestring_from_nodes s =
     Inr (Some ((if length (segments s) > 1 then lit ''LINESTRING'' else lit ''POINT'') @
                lit ''('' @
                str_join (lit '', '')
                  (map (\<lambda>node. (tokens node ! 1) @ lit '' '' @ (tokens node ! 0)) (kept s)) @
                lit '')'')) \<and>
   (\<forall>node \<in> set (kept s).
      sublist node s \<and> sublist (tokens node ! 0) node \<and> sublist (tokens node ! 1) node) \<and>
   WKT_linestring_from_nodes (lit ''1.5 2.5'') = Inr (Some (lit ''POINT(2.5 1.5)''))"
proof (intro conjI ballI)
  have "map (\<lambda>node. (tokens node ! 1) @ lit '' '' @ (tokens node ! 0)) (kept s) =
        map pair_of (kept s)"
    by (simp add: pair_of_def)
  then show "WKT_linestring_from_nodes s =
     Inr (Some ((if length (segments s) > 1 then lit ''LINESTRING'' else lit ''POINT'') @
                lit ''('' @
                str_join (lit '', '')
                  (map (\<lambda>node. (tokens node ! 1) @ lit '' '' @ (tokens node ! 0)) (kept s)) @
                lit '')''))"
    by (simp only: WKT_by_segments)
next
  fix node assume n: "node \<in> set (kept s)"
  then have "node \<in> set (str_split s 59)" by (simp add: kept_def segments_def)
  then show "sublist node s" by (rule str_split_sublist)
  from n have l: "well_formed node" by (simp add: kept_def)
  then have "tokens node ! 0 \<in> set (tokens node)" by (rule well_formed_tokens)
  then show "sublist (tokens node ! 0) node" by (rule tokens_sublist)
  from l have "tokens node ! 1 \<in> set (tokens node)" by (rule well_formed_tokens)
  then show "sublist (tokens node ! 1) node" by (rule tokens_sublist)
next
  show "WKT_linestring_from_nodes (lit ''1.5 2.5'') = Inr (Some (lit ''POINT(2.5 1.5)''))"
    by (simp add: py_eval)
qed

text \<open>The theorem at the node \<^verbatim>\<open>"1.5 2.5"\<close>.\<close>

theorem WKT_axis_order_witness:
  "kept (lit ''1.5 2.5'') = [lit ''1.5 2.5''] \<and>
   tokens (lit ''1.5 2.5'') = [lit ''1.5'', lit ''2.5''] \<and>
   sublist (lit ''1.5'') (lit ''1.5 2.5'') \<and> sublist (lit ''2.5'') (lit ''1.5 2.5'') \<and>
   WKT_linestring_from_nodes (lit ''1.5 2.5'') = Inr (Some (lit ''POINT(2.5 1.5)''))"
proof -
  have k: "kept (lit ''1.5 2.5'') = [lit ''1.5 2.5'']" by (simp add: spec_eval)
  have t: "tokens (lit ''1.5 2.5'') = [lit ''1.5'', lit ''2.5'']" by (simp add: spec_eval)
  from k have "lit ''1.5 2.5'' \<in> set (kept (lit ''1.5 2.5''))" by simp
  with WKT_axis_order [of "lit ''1.5 2.5''"]
  have "sublist (tokens (lit ''1.5 2.5'') ! 0) (lit ''1.5 2.5'') \<and>
        sublist (tokens (lit ''1.5 2.5'') ! 1) (lit ''1.5 2.5'')" by blast
  with t have "sublist (lit ''1.5'') (lit ''1.5 2.5'') \<and> sublist (lit ''2.5'') (lit ''1.5 2.5'')"
    by simp
  with k t WKT_axis_order [of "lit ''1.5 2.5''"] show ?thesis by blast
qed

text \<open>
  Claim C4: for every input string, the empty one included, the result is a string
  of the shape \<^verbatim>\<open>KIND(pairs)\<close> and never \<^verbatim>\<open>None\<close>: splitting on
  \<^verbatim>\<open>';'\<close> never gives the empty list, so the \<^verbatim>\<open>else\<close> branch is not
  reached, and the empty NodeString gives \<^verbatim>\<open>"POINT()"\<close>.
\<close>

theorem WKT_never_None:
  "(\<exists>body. WKT_linestring_from_nodes s = Inr (Some (lit ''POINT'' @ lit ''('' @ body @ lit '')'')) \<or>
           WKT_linestring_from_nodes s = Inr (Some (lit ''LINESTRING'' @ lit ''('' @ body @ lit '')''))) \<and>
   WKT_linestring_from_nodes s \<noteq> Inr None \<and>
   str_split s 59 \<noteq> [] \<and>
   WKT_linestring_from_nodes [] = Inr (Some (lit ''POINT()''))"
proof (intro conjI)
  show "\<exists>body. WKT_linestring_from_nodes s = Inr (Some (lit ''POINT'' @ lit ''('' @ body @ lit '')'')) \<or>
           WKT_linestring_from_nodes s = Inr (Some (lit ''LINESTRING'' @ lit ''('' @ body @ lit '')''))"
    by (rule exI [of _ "str_join (lit '', '') (map pair_of (kept s))"]) (simp add: WKT_by_segments)
  show "WKT_linestring_from_nodes s \<noteq> Inr None" by (simp add: WKT_by_segments)
  show "str_split s 59 \<noteq> []" by (rule str_split_nonempty)
  show "WKT_linestring_from_nodes [] = Inr (Some (lit ''POINT()''))"
    by (simp add: py_eval)
qed

text \<open>
  Claim C5: a NodeString with \<open>k \<ge> 2\<close> well-formed segments gives
  \<^verbatim>\<open>LINESTRING(...)\<close> with exactly \<open>k\<close> pairs, those of the well-formed segments in
  the order of the segments (which, joined by \<^verbatim>\<open>';'\<close>, are the NodeString), joined
  by comma and space, with no separator after the last pair.
\<close>

theorem WKT_linestring_of_k_pairs:
  assumes "length (filter well_formed (segments s)) = k" and "2 \<le> k"
  shows "WKT_linestring_from_nodes s =
           Inr (Some (lit ''LINESTRING'' @ lit ''('' @
                      str_join (lit '', '') (map pair_of (filter well_formed (segments s))) @
                      lit '')'')) \<and>
         length (map pair_of (filter well_formed (segments s))) = k \<and>
         str_join [59] (segments s) = s \<and>
         \<not> suffix (lit '', '')
             (str_join (lit '', '') (map pair_of (filter well_formed (segments s))))"
proof (intro conjI)
  have "length (filter well_formed (segments s)) \<le> length (segments s)" by simp
  with assms have "length (segments s) > 1" by simp
  then show "WKT_linestring_from_nodes s =
           Inr (Some (lit ''LINESTRING'' @ lit ''('' @
                      str_join (lit '', '') (map pair_of (filter well_formed (segments s))) @
                      lit '')''))"
    by (simp add: WKT_by_segments kept_def)
  show "length (map pair_of (filter well_formed (segments s))) = k" using assms by simp
  show "str_join [59] (segments s) = s" by (simp add: segments_def str_join_split)
  from assms have "kept s \<noteq> []" by (auto simp: kept_def)
  then show "\<not> suffix (lit '', '')
             (str_join (lit '', '') (map pair_of (filter well_formed (segments s))))"
    using pairs_no_trailing_separator [of s] by (simp add: kept_def)
qed

text \<open>The theorem at \<^verbatim>\<open>"1.0 2.0;3.0 4.0"\<close>.\<close>

theorem WKT_linestring_of_k_pairs_witness:
  "length (filter well_formed (segments (lit ''1.0 2.0;3.0 4.0''))) = 2 \<and>
   map pair_of (filter well_formed (segments (lit ''1.0 2.0;3.0 4.0''))) =
     [lit ''2.0 1.0'', lit ''4.0 3.0''] \<and>
   WKT_linestring_from_nodes (lit ''1.0 2.0;3.0 4.0'') =
     Inr (Some (lit ''LINESTRING(2.0 1.0, 4.0 3.0)''))"
proof -
  have a: "length (filter well_formed (segments (lit ''1.0 2.0;3.0 4.0''))) = 2"
    by (simp add: spec_eval)
  have b: "map pair_of (filter well_formed (segments (lit ''1.0 2.0;3.0 4.0''))) =
     [lit ''2.0 1.0'', lit ''4.0 3.0'']"
    by (simp add: spec_eval)
  from WKT_linestring_of_k_pairs [OF a] b
  have "WKT_linestring_from_nodes (lit ''1.0 2.0;3.0 4.0'') =
     Inr (Some (lit ''LINESTRING(2.0 1.0, 4.0 3.0)''))"
    by (simp add: lit_def)
  with a b show ?thesis by blast
qed

text \<open>
  Claim C6: segments with fewer than 2 tokens are dropped and nothing is raised: the
  builder returns a string for every NodeString, made of the pairs of the well-formed
  segments only, and the loop over the rows goes on to the next row whatever the field
  holds. Tokens after the first two of a kept segment do not reach the pair. In
  particular \<^verbatim>\<open>"1.0 2.0 99.0 0.5"\<close> gives \<^verbatim>\<open>"POINT(2.0 1.0)"\<close>.
\<close>

theorem WKT_discards_silently:
  "WKT_linestring_from_nodes s =
     Inr (Some ((if length (segments s) > 1 then lit ''LINESTRING'' else lit ''POINT'') @
                lit ''('' @
                str_join (lit '', '') (map pair_of (filter well_formed (segments s))) @
                lit '')'')) \<and>
   (\<forall>n n'. well_formed n \<and> well_formed n' \<and> take 2 (tokens n) = take 2 (tokens n') \<longrightarrow>
      pair_of n = pair_of n') \<and>
   (\<forall>ci row reader out. position (length row) ci \<noteq> None \<longrightarrow>
      for_row ci (row # reader) out = for_row ci reader (out @ [transformed ci row])) \<and>
   WKT_linestring_from_nodes (lit ''1.0 2.0 99.0 0.5'') = Inr (Some (lit ''POINT(2.0 1.0)''))"
proof (intro conjI allI impI)
  show "WKT_linestring_from_nodes s =
     Inr (Some ((if length (segments s) > 1 then lit ''LINESTRING'' else lit ''POINT'') @
                lit ''('' @
                str_join (lit '', '') (map pair_of (filter well_formed (segments s))) @
                lit '')''))"
    using WKT_by_segments [of s] by (simp only: kept_def)
next
  fix n n'
  assume "well_formed n \<and> well_formed n' \<and> take 2 (tokens n) = take 2 (tokens n')"
  then show "pair_of n = pair_of n'" by (simp add: pair_of_take)
next
  fix ci :: int and row :: "str list" and reader out
  assume "position (length row) ci \<noteq> None"
  then show "for_row ci (row # reader) out = for_row ci reader (out @ [transformed ci row])"
    by (rule for_row_step)
next
  show "WKT_linestring_from_nodes (lit ''1.0 2.0 99.0 0.5'') = Inr (Some (lit ''POINT(2.0 1.0)''))"
    by (simp add: py_eval)
qed

text \<open>
  The theorem at a node with elevation and accuracy, and at a row whose field has two
  malformed segments around a well-formed one.
\<close>

theorem WKT_discards_silently_witness:
  "well_formed (lit ''1.0 2.0 99.0 0.5'') \<and> well_formed (lit ''1.0 2.0'') \<and>
   take 2 (tokens (lit ''1.0 2.0 99.0 0.5'')) = take 2 (tokens (lit ''1.0 2.0'')) \<and>
   pair_of (lit ''1.0 2.0 99.0 0.5'') = pair_of (lit ''1.0 2.0'') \<and>
   position (length [lit ''a'', lit ''x;1 2;y'']) 1 \<noteq> None \<and>
   for_row 1 [[lit ''a'', lit ''x;1 2;y'']] [] =
     \<lparr>written = [[Some (lit ''a''), Some (lit ''LINESTRING(2 1)'')]], raised = None\<rparr>"
proof -
  have a: "well_formed (lit ''1.0 2.0 99.0 0.5'') \<and> well_formed (lit ''1.0 2.0'') \<and>
     take 2 (tokens (lit ''1.0 2.0 99.0 0.5'')) = take 2 (tokens (lit ''1.0 2.0''))"
    by (simp add: spec_eval)
  with WKT_discards_silently [of "[]"]
  have b: "pair_of (lit ''1.0 2.0 99.0 0.5'') = pair_of (lit ''1.0 2.0'')" by blast
  have c: "position (length [lit ''a'', lit ''x;1 2;y'']) 1 \<noteq> None"
    by (simp add: position_def)
  with WKT_discards_silently [of "[]"]
  have "for_row 1 ([lit ''a'', lit ''x;1 2;y''] # []) [] =
        for_row 1 [] ([] @ [transformed 1 [lit ''a'', lit ''x;1 2;y'']])" by blast
  moreover have "transformed 1 [lit ''a'', lit ''x;1 2;y''] =
      [Some (lit ''a''), Some (lit ''LINESTRING(2 1)'')]"
    by (simp add: transformed_def position_def py_eval)
  ultimately have d: "for_row 1 [[lit ''a'', lit ''x;1 2;y'']] [] =
     \<lparr>written = [[Some (lit ''a''), Some (lit ''LINESTRING(2 1)'')]], raised = None\<rparr>"
    by simp
  from a b c d show ?thesis by blast
qed

subsection \<open>Claims about the column resolver and the rows\<close>

text \<open>
  Claim C7, as the code has it: the resolver has two selectors. When \<open>column\<close> is a
  non-empty string that parses as an integer \<open>n\<close>, the index is \<open>n - 1\<close> and
  \<open>column_name\<close> is not looked at; when \<open>column\<close> is \<^verbatim>\<open>None\<close> or empty, the index
  is the position of the first header field equal to \<open>column_name\<close>. With the header
  \<^verbatim>\<open>["id","trace"]\<close>, the name \<^verbatim>\<open>"trace"\<close> resolves to 1 and the column
  \<^verbatim>\<open>"2"\<close> resolves to 1.
\<close>

theorem colindex_two_selectors:
  "(\<forall>c n. column = Some c \<and> c \<noteq> [] \<and> py_int c = Inr n \<longrightarrow>
      colindex column column_name header = Inr (n - 1)) \<and>
   (\<forall>i. (column = None \<or> column = Some []) \<and> i < length header \<and>
        header ! i = column_name \<and> (\<forall>j<i. header ! j \<noteq> column_name) \<longrightarrow>
      colindex column column_name header = Inr (int i)) \<and>
   colindex None (lit ''trace'') [lit ''id'', lit ''trace''] = Inr 1 \<and>
   colindex (Some (lit ''2'')) column_name [lit ''id'', lit ''trace''] = Inr 1"
proof (intro conjI allI impI)
  fix c n assume "column = Some c \<and> c \<noteq> [] \<and> py_int c = Inr n"
  then show "colindex column column_name header = Inr (n - 1)"
    by (simp add: colindex_def)
next
  fix i
  assume a: "(column = None \<or> column = Some []) \<and> i < length header \<and>
        header ! i = column_name \<and> (\<forall>j<i. header ! j \<noteq> column_name)"
  then have "py_index header column_name = Inr (int i)" by (intro py_index_first) auto
  with a show "colindex column column_name header = Inr (int i)"
    by (auto simp: colindex_def)
next
  show "colindex None (lit ''trace'') [lit ''id'', lit ''trace''] = Inr 1"
    by (simp add: main_eval)
  show "colindex (Some (lit ''2'')) column_name [lit ''id'', lit ''trace''] = Inr 1"
    by (simp add: main_eval)
qed

text \<open>The theorem at the column \<^verbatim>\<open>"3"\<close> and at a name that occurs twice.\<close>

theorem colindex_two_selectors_witness:
  "py_int (lit ''3'') = Inr 3 \<and>
   colindex (Some (lit ''3'')) (lit ''x'') [] = Inr 2 \<and>
   colindex None (lit ''b'') [lit ''a'', lit ''b'', lit ''b''] = Inr 1"
proof -
  have a: "lit ''3'' \<noteq> [] \<and> py_int (lit ''3'') = Inr 3" by (simp add: main_eval)
  with colindex_two_selectors [where column = "Some (lit ''3'')" and column_name = "lit ''x''"
      and header = "[]"]
  have b: "colindex (Some (lit ''3'')) (lit ''x'') [] = Inr (3 - 1)" by blast
  have c: "(1::nat) < length [lit ''a'', lit ''b'', lit ''b''] \<and>
     [lit ''a'', lit ''b'', lit ''b''] ! 1 = lit ''b'' \<and>
     (\<forall>j<1. [lit ''a'', lit ''b'', lit ''b''] ! j \<noteq> lit ''b'')"
    by (simp add: lit_def)
  with colindex_two_selectors [where column = None and column_name = "lit ''b''"
      and header = "[lit ''a'', lit ''b'', lit ''b'']"]
  have "colindex None (lit ''b'') [lit ''a'', lit ''b'', lit ''b''] = Inr (int 1)" by blast
  with a b show ?thesis by simp
qed

text \<open>
  No single selector is first tried as a number and then as a name: a numeric string
  given as the name is looked up among the header fields, and a name given as the
  column is refused by \<^verbatim>\<open>int\<close>.
\<close>

theorem colindex_single_selector_counterexample:
  "colindex None (lit ''2'') [lit ''id'', lit ''trace''] = Inl ValueError_not_in_list \<and>
   colindex (Some (lit ''trace'')) (lit ''trace'') [lit ''id'', lit ''trace''] =
     Inl ValueError_invalid_literal"
  by (simp add: main_eval)

text \<open>
  Claim C8, as the code has it: for an input with \<open>R\<close> data rows of \<open>C\<close> fields
  each, when the column resolves to an index that lies within the \<open>C\<close> fields,
  \<open>main\<close> ends without an exception, having written the header unmodified and then
  exactly \<open>R\<close> records, one per data row and in the same order, each of \<open>C\<close>
  fields; in each record the field at the column holds the builder's result and every
  other field is the input's, at its own position.
\<close>

theorem main_preserves_shape:
  assumes "colindex column column_name header = Inr ci"
      and "\<forall>row \<in> set rows. length row = C"
      and "position C ci = Some k"
  shows "main (header # rows) column column_name =
           \<lparr>written = map Some header # map (transformed ci) rows, raised = None\<rparr> \<and>
         length (map (transformed ci) rows) = length rows \<and>
         (\<forall>row \<in> set rows.
            length (transformed ci row) = C \<and>
            WKT_linestring_from_nodes (row ! k) = Inr (transformed ci row ! k) \<and>
            (\<forall>j < C. j \<noteq> k \<longrightarrow> transformed ci row ! j = Some (row ! j)))"
proof (intro conjI ballI allI impI)
  from assms(2,3) have "\<forall>row \<in> set rows. position (length row) ci \<noteq> None" by simp
  then show "main (header # rows) column column_name =
           \<lparr>written = map Some header # map (transformed ci) rows, raised = None\<rparr>"
    using assms(1) by (simp add: main_def for_row_ok)
  show "length (map (transformed ci) rows) = length rows" by simp
next
  fix row assume "row \<in> set rows"
  with assms(2,3) have p: "position (length row) ci = Some k" and l: "length row = C"
    by simp_all
  from p l show "length (transformed ci row) = C" by (simp add: transformed_shape)
  from p show "WKT_linestring_from_nodes (row ! k) = Inr (transformed ci row ! k)"
    by (rule transformed_shape)
  fix j assume "j < C" "j \<noteq> k"
  with p l show "transformed ci row ! j = Some (row ! j)" by (simp add: transformed_shape)
qed

text \<open>The theorem at a file of two data rows, the column given by name.\<close>

theorem main_preserves_shape_witness:
  "colindex None (lit ''trace'') [lit ''id'', lit ''trace''] = Inr 1 \<and>
   position 2 1 = Some 1 \<and>
   main [[lit ''id'', lit ''trace''], [lit ''a'', lit ''1 2;3 4''], [lit ''b'', lit ''5 6'']]
        None (lit ''trace'') =
     \<lparr>written = [[Some (lit ''id''), Some (lit ''trace'')],
                 [Some (lit ''a''), Some (lit ''LINESTRING(2 1, 4 3)'')],
                 [Some (lit ''b''), Some (lit ''POINT(6 5)'')]],
      raised = None\<rparr>"
proof -
  have c: "colindex None (lit ''trace'') [lit ''id'', lit ''trace''] = Inr 1"
    by (simp add: main_eval)
  have r: "\<forall>row \<in> set [[lit ''a'', lit ''1 2;3 4''], [lit ''b'', lit ''5 6'']]. length row = 2"
    by simp
  have p: "position 2 1 = Some 1" by (simp add: position_def)
  have t: "transformed 1 [lit ''a'', lit ''1 2;3 4''] =
             [Some (lit ''a''), Some (lit ''LINESTRING(2 1, 4 3)'')]"
    "transformed 1 [lit ''b'', lit ''5 6''] = [Some (lit ''b''), Some (lit ''POINT(6 5)'')]"
    by (simp_all add: transformed_def position_def py_eval)
  from main_preserves_shape [OF c r p]
  have "main ([lit ''id'', lit ''trace''] # [[lit ''a'', lit ''1 2;3 4''], [lit ''b'', lit ''5 6'']])
          None (lit ''trace'') =
        \<lparr>written = map Some [lit ''id'', lit ''trace''] #
           map (transformed 1) [[lit ''a'', lit ''1 2;3 4''], [lit ''b'', lit ''5 6'']],
         raised = None\<rparr>" by blast
  with t have "main [[lit ''id'', lit ''trace''], [lit ''a'', lit ''1 2;3 4''], [lit ''b'', lit ''5 6'']]
        None (lit ''trace'') =
     \<lparr>written = [[Some (lit ''id''), Some (lit ''trace'')],
                 [Some (lit ''a''), Some (lit ''LINESTRING(2 1, 4 3)'')],
                 [Some (lit ''b''), Some (lit ''POINT(6 5)'')]],
      raised = None\<rparr>" by simp
  with c p show ?thesis by blast
qed

text \<open>
  Without that condition the shape is not kept: the column \<^verbatim>\<open>"3"\<close> resolves to
  the index 2, which no row of two fields has; the header is written, the first data
  row raises \<^verbatim>\<open>IndexError\<close>, and no data record is written for the two data rows.
\<close>

theorem main_preserves_shape_counterexample:
  "colindex (Some (lit ''3'')) (lit ''trace'') [lit ''id'', lit ''trace''] = Inr 2 \<and>
   main [[lit ''id'', lit ''trace''], [lit ''a'', lit ''1 2''], [lit ''b'', lit ''3 4'']]
        (Some (lit ''3'')) (lit ''trace'') =
     \<lparr>written = [[Some (lit ''id''), Some (lit ''trace'')]], raised = Some IndexError\<rparr>"
  by (simp add: main_eval)

text \<open>
  Claim C9, as the code has it: no policy is applied to a data row with fewer fields
  than the column needs. At the first such row the indexing fault
  (\<^verbatim>\<open>IndexError\<close>) ends the run unhandled; the header and the records of the rows
  before it have been written, and nothing is written for that row or any later one.
\<close>

theorem main_short_row_IndexError:
  assumes "colindex column column_name header = Inr ci"
      and "\<forall>row \<in> set pre. position (length row) ci \<noteq> None"
      and "position (length bad) ci = None"
  shows "main (header # pre @ bad # post) column column_name =
           \<lparr>written = map Some header # map (transformed ci) pre, raised = Some IndexError\<rparr>"
  using assms by (simp add: main_def for_row_IndexError)

text \<open>The theorem at a short row between two rows that are long enough.\<close>

theorem main_short_row_IndexError_witness:
  "colindex None (lit ''trace'') [lit ''id'', lit ''trace''] = Inr 1 \<and>
   position (length [lit ''a'', lit ''1 2'']) 1 = Some 1 \<and>
   position (length [lit ''b'']) 1 = None \<and>
   main [[lit ''id'', lit ''trace''], [lit ''a'', lit ''1 2''], [lit ''b''], [lit ''c'', lit ''3 4'']]
        None (lit ''trace'') =
     \<lparr>written = [[Some (lit ''id''), Some (lit ''trace'')],
                 [Some (lit ''a''), Some (lit ''POINT(2 1)'')]],
      raised = Some IndexError\<rparr>"
proof -
  have c: "colindex None (lit ''trace'') [lit ''id'', lit ''trace''] = Inr 1"
    by (simp add: main_eval)
  have p: "position (length [lit ''a'', lit ''1 2'']) 1 = Some 1" by (simp add: position_def)
  then have r: "\<forall>row \<in> set [[lit ''a'', lit ''1 2'']]. position (length row) 1 \<noteq> None"
    by simp
  have b: "position (length [lit ''b'']) 1 = None" by (simp add: position_def)
  have t: "transformed 1 [lit ''a'', lit ''1 2''] = [Some (lit ''a''), Some (lit ''POINT(2 1)'')]"
    by (simp add: transformed_def position_def py_eval)
  from main_short_row_IndexError [OF c r b, of "[[lit ''c'', lit ''3 4'']]"] t
  have "main [[lit ''id'', lit ''trace''], [lit ''a'', lit ''1 2''], [lit ''b''], [lit ''c'', lit ''3 4'']]
        None (lit ''trace'') =
     \<lparr>written = [[Some (lit ''id''), Some (lit ''trace'')],
                 [Some (lit ''a''), Some (lit ''POINT(2 1)'')]],
      raised = Some IndexError\<rparr>" by simp
  with c p b show ?thesis by blast
qed

text \<open>
  A data row of one field where the column is the second: the run ends with
  \<^verbatim>\<open>IndexError\<close> after the header.
\<close>

theorem main_short_row_counterexample:
  "processAlgorithm [[lit ''id'', lit ''trace''], [lit ''a'']] (lit ''trace'') =
     \<lparr>written = [[Some (lit ''id''), Some (lit ''trace'')]], raised = Some IndexError\<rparr>"
  by (simp add: processAlgorithm_def main_eval)

text \<open>
  Claim C10: when the column is resolved by name (\<open>column\<close> is \<^verbatim>\<open>None\<close> or empty)
  and no header field equals the name, \<open>main\<close> ends with the \<^verbatim>\<open>ValueError\<close> of
  \<^verbatim>\<open>header.index\<close> before any data row is read: no record has been written, not
  even the header.
\<close>

theorem main_column_not_found:
  assumes "column = None \<or> column = Some []" and "column_name \<notin> set header"
  shows "main (header # rows) column column_name =
           \<lparr>written = [], raised = Some ValueError_not_in_list\<rparr> \<and>
         processAlgorithm (header # rows) column_name =
           \<lparr>written = [], raised = Some ValueError_not_in_list\<rparr>"
  using assms by (auto simp: main_def processAlgorithm_def colindex_def py_index_absent)

text \<open>The theorem at a name that is not in the header.\<close>

theorem main_column_not_found_witness:
  "lit ''geom'' \<notin> set [lit ''id'', lit ''trace''] \<and>
   main [[lit ''id'', lit ''trace''], [lit ''a'', lit ''1 2'']] None (lit ''geom'') =
     \<lparr>written = [], raised = Some ValueError_not_in_list\<rparr> \<and>
   processAlgorithm [[lit ''id'', lit ''trace''], [lit ''a'', lit ''1 2'']] (lit ''geom'') =
     \<lparr>written = [], raised = Some ValueError_not_in_list\<rparr>"
proof -
  have a: "lit ''geom'' \<notin> set [lit ''id'', lit ''trace'']" by (simp add: lit_def)
  have n: "None = None \<or> None = Some ([]::str)" by simp
  from main_column_not_found [OF n a, of "[[lit ''a'', lit ''1 2'']]"] a show ?thesis by blast
qed

end
